theory Spec2Isabelle
  imports Main "HOL-Library.Word" "HOL-Library.Sublist" "HOL-Library.Char_ord"
    "HOL-Library.List_Lexorder"
begin

section \<open>The remote transport consumed by the stream\<close>

text \<open>
  \<open>io.go\<close> reaches the network only through \<open>api.getObject\<close>, \<open>api.headObject\<close> and the
  \<open>io.ReadCloser\<close> that \<open>getObject\<close> returns. None of the three is defined in \<open>io.go\<close>, so
  the transport is modelled as an explicit world: the remote objects, every response body
  opened so far (a handle is the position of its body in that list), and the parameters
  that the stream cannot control (injected faults, whether a body reports end-of-stream
  together with its last bytes, what a body answers once it has been closed).
  The stream's mutex serialises the calls; each operation below is one such serialised
  call.
\<close>

type_synonym byte = "8 word"
type_synonym int64 = "64 word"
type_synonym handle = nat

datatype error = EOF | ErrorResponse string

text \<open>
  Modelled from the spec: the type \<open>ObjectStat\<close> is declared outside \<open>io.go\<close>; the spec asks
  of the metadata "at minimum: total size", the only field \<open>io.go\<close> reads.
\<close>

record ObjectStat =
  Size :: int64

text \<open>
  Modelled from the spec: the \<open>io.ReadCloser\<close> that \<open>getObject\<close> returns is made outside
  \<open>io.go\<close>; the spec asks for "a readable byte source yielding bytes from startOffset to
  end-of-object" that "must support being closed before being fully drained".
  \<open>pending\<close> are the bytes not yet handed out, \<open>ending\<close> is what the body reports once
  they are exhausted (\<open>EOF\<close>, or the error that broke the connection).
\<close>

record body =
  pending :: "byte list"
  ending :: error
  closed :: bool

datatype fault = NoFault | Refuse error | BreakAfter nat error

record transport =
  objects :: "((string \<times> string) \<times> byte list) list"
  bodies :: "body list"
  faults :: "fault list"
  eager_eof :: bool
  closed_err :: error

definition next_fault :: "transport \<Rightarrow> fault" where
  "next_fault t = (case faults t of [] \<Rightarrow> NoFault | f # fs \<Rightarrow> f)"

definition open_body :: "fault \<Rightarrow> byte list \<Rightarrow> body" where
  "open_body f bytes =
     (case f of
        BreakAfter k e \<Rightarrow> \<lparr>pending = take k bytes, ending = e, closed = False\<rparr>
      | _ \<Rightarrow> \<lparr>pending = bytes, ending = EOF, closed = False\<rparr>)"

text \<open>
  Modelled from the spec: \<open>getObject\<close> is the spec's \<open>FetchRange\<close>, "returns a readable byte
  source yielding bytes from startOffset to end-of-object"; it fails when the object is
  absent, when the offset lies outside the object, or when the transport refuses the
  request. The stream always passes length 0, which asks for everything through
  end-of-object; a positive length caps the body.
\<close>

definition getObject ::
  "string \<Rightarrow> string \<Rightarrow> int64 \<Rightarrow> int64 \<Rightarrow> transport \<Rightarrow> (error + handle) \<times> transport" where
  "getObject bucket object off len t =
     (let t1 = t\<lparr>faults := tl (faults t)\<rparr> in
      case next_fault t of
        Refuse e \<Rightarrow> (Inl e, t1)
      | f \<Rightarrow>
         (case map_of (objects t) (bucket, object) of
            None \<Rightarrow> (Inl (ErrorResponse ''NoSuchKey''), t1)
          | Some content \<Rightarrow>
              if sint off < 0 \<or> int (length content) < sint off
              then (Inl (ErrorResponse ''InvalidRange''), t1)
              else
                let bytes = drop (nat (sint off)) content;
                    bytes = (if 0 < sint len then take (nat (sint len)) bytes else bytes)
                in (Inr (length (bodies t)), t1\<lparr>bodies := bodies t @ [open_body f bytes]\<rparr>)))"

text \<open>
  Modelled from the spec: \<open>headObject\<close> is the spec's \<open>FetchMetadata\<close>, "returns object
  metadata (at minimum: total size) without transferring object bytes"; on failure the
  metadata is the zero value.
\<close>

definition headObject :: "string \<Rightarrow> string \<Rightarrow> transport \<Rightarrow> ObjectStat \<times> error option" where
  "headObject bucket object t =
     (case map_of (objects t) (bucket, object) of
        None \<Rightarrow> (\<lparr>Size = 0\<rparr>, Some (ErrorResponse ''NoSuchKey''))
      | Some content \<Rightarrow> (\<lparr>Size = of_nat (length content)\<rparr>, None))"

text \<open>
  \<open>Read\<close> of a response body into a buffer of \<open>n\<close> bytes, by the contract of \<open>io.Reader\<close>:
  it returns the bytes copied and an optional error. A closed body answers \<open>cerr\<close>; an
  exhausted body answers its \<open>ending\<close>; an eager body reports its \<open>ending\<close> in the same call
  that hands out its last bytes.
\<close>

definition body_Read ::
  "error \<Rightarrow> bool \<Rightarrow> nat \<Rightarrow> body \<Rightarrow> (byte list \<times> error option) \<times> body" where
  "body_Read cerr eager n b =
     (if closed b then (([], Some cerr), b)
      else if pending b = [] then (([], Some (ending b)), b)
      else if n = 0 then (([], None), b)
      else if eager \<and> length (pending b) \<le> n
        then ((pending b, Some (ending b)), b\<lparr>pending := []\<rparr>)
      else ((take n (pending b), None), b\<lparr>pending := drop n (pending b)\<rparr>))"

definition reader_Read ::
  "handle \<Rightarrow> nat \<Rightarrow> transport \<Rightarrow> (byte list \<times> error option) \<times> transport" where
  "reader_Read rd n t =
     (if rd < length (bodies t) then
        (case body_Read (closed_err t) (eager_eof t) n (bodies t ! rd) of
           (res, b) \<Rightarrow> (res, t\<lparr>bodies := (bodies t)[rd := b]\<rparr>))
      else (([], Some (ErrorResponse ''invalid handle'')), t))"

definition reader_Close :: "handle \<Rightarrow> transport \<Rightarrow> transport" where
  "reader_Close rd t =
     (if rd < length (bodies t)
      then t\<lparr>bodies := (bodies t)[rd := (bodies t ! rd)\<lparr>closed := True\<rparr>]\<rparr>
      else t)"

text \<open>
  \<open>io.Copy(ioutil.Discard, r.reader)\<close>: the body is read through an 8192-byte
  buffer until a read reports end-of-stream or an error; what was read is thrown away.
\<close>

function Copy_Discard :: "handle \<Rightarrow> transport \<Rightarrow> transport" where
  "Copy_Discard rd t =
     (let res = reader_Read rd 8192 t in
      if snd (fst res) = None then Copy_Discard rd (snd res) else snd res)"
  by pat_completeness auto

definition left :: "handle \<Rightarrow> transport \<Rightarrow> nat" where
  "left rd t = (if rd < length (bodies t) then length (pending (bodies t ! rd)) else 0)"

lemma reader_Read_progress:
  "snd (fst (reader_Read rd 8192 t)) = None \<Longrightarrow> left rd (snd (reader_Read rd 8192 t)) < left rd t"
  by (auto simp: reader_Read_def body_Read_def left_def split: if_splits)

termination Copy_Discard
  by (relation "measure (\<lambda>(rd, t). left rd t)") (auto simp: reader_Read_progress)

declare Copy_Discard.simps [simp del]

section \<open>objectReadSeeker\<close>

text \<open>
  The struct of \<open>io.go\<close>. The \<open>api\<close> field is the transport, passed beside the stream; the
  \<open>reader\<close> field is \<open>nil\<close> (\<open>None\<close>) or the handle of a response body.
\<close>

record objectReadSeeker =
  reader :: "handle option"
  isRead :: bool
  stat :: ObjectStat
  offset :: int64
  bucketName :: string
  objectName :: string

definition newObjectReadSeeker :: "string \<Rightarrow> string \<Rightarrow> objectReadSeeker" where
  "newObjectReadSeeker bucket object =
     \<lparr>reader = None, isRead = False, stat = \<lparr>Size = 0\<rparr>, offset = 0,
      bucketName = bucket, objectName = object\<rparr>"

text \<open>
  \<open>Read(p)\<close> with \<open>len(p) = n\<close>. The result is \<open>None\<close> when the call panics (a method call
  on a \<open>nil\<close> reader); otherwise the bytes \<open>p[:n]\<close> the caller is told about, the error, and
  the stream and transport after the call.
\<close>

definition objectReadSeeker_Read ::
  "nat \<Rightarrow> objectReadSeeker \<times> transport \<Rightarrow>
     ((byte list \<times> error option) \<times> objectReadSeeker \<times> transport) option" where
  "objectReadSeeker_Read n s =
     (case s of (r, t) \<Rightarrow>
        (case (if \<not> isRead r then
                 (case getObject (bucketName r) (objectName r) (offset r) 0 t of
                    (Inl err, t1) \<Rightarrow> Inl (err, t1)
                  | (Inr rd, t1) \<Rightarrow> Inr (r\<lparr>reader := Some rd, isRead := True\<rparr>, t1))
               else Inr (r, t)) of
           Inl (err, t1) \<Rightarrow> Some (([], Some err), r, t1)
         | Inr (r1, t1) \<Rightarrow>
            (case reader r1 of
               None \<Rightarrow> None
             | Some rd \<Rightarrow>
                (case reader_Read rd n t1 of
                   ((bs, Some err), t2) \<Rightarrow>
                      if err = EOF
                      then Some ((bs, Some err), r1, reader_Close rd (Copy_Discard rd t2))
                      else Some (([], Some err), r1, reader_Close rd (Copy_Discard rd t2))
                 | ((bs, None), t2) \<Rightarrow> Some ((bs, None), r1, t2)))))"

text \<open>\<open>Seek(offset, whence)\<close>: the body of the function never reads \<open>whence\<close>.\<close>

definition objectReadSeeker_Seek ::
  "int64 \<Rightarrow> int64 \<Rightarrow> objectReadSeeker \<Rightarrow> (int64 \<times> error option) \<times> objectReadSeeker" where
  "objectReadSeeker_Seek off whence r = ((off, None), r\<lparr>offset := off\<rparr>)"

definition objectReadSeeker_Size ::
  "objectReadSeeker \<times> transport \<Rightarrow> (int64 \<times> error option) \<times> objectReadSeeker \<times> transport" where
  "objectReadSeeker_Size s =
     (case s of (r, t) \<Rightarrow>
        (case headObject (bucketName r) (objectName r) t of
           (objectSt, err) \<Rightarrow> ((Size objectSt, err), r\<lparr>stat := objectSt\<rparr>, t)))"


section \<open>Driving a stream\<close>

text \<open>
  A caller drives a stream by a sequence of calls. \<open>run\<close> performs them in order and
  collects what each call returned; it is \<open>None\<close> when a call panics.
\<close>

datatype call = CallRead nat | CallSeek int64 int64 | CallSize

datatype reply =
  ReadReply "byte list" "error option"
| SeekReply int64 "error option"
| SizeReply int64 "error option"

fun perform ::
  "call \<Rightarrow> objectReadSeeker \<times> transport \<Rightarrow> (reply \<times> objectReadSeeker \<times> transport) option" where
  "perform (CallRead n) s =
     (case objectReadSeeker_Read n s of
        None \<Rightarrow> None
      | Some ((bs, err), s1) \<Rightarrow> Some (ReadReply bs err, s1))"
| "perform (CallSeek off whence) (r, t) =
     (case objectReadSeeker_Seek off whence r of
        ((pos, err), r1) \<Rightarrow> Some (SeekReply pos err, r1, t))"
| "perform CallSize s =
     (case objectReadSeeker_Size s of
        ((sz, err), s1) \<Rightarrow> Some (SizeReply sz err, s1))"

fun run ::
  "call list \<Rightarrow> objectReadSeeker \<times> transport \<Rightarrow>
     (reply list \<times> objectReadSeeker \<times> transport) option" where
  "run [] s = Some ([], s)"
| "run (c # cs) s =
     (case perform c s of
        None \<Rightarrow> None
      | Some (rep, s1) \<Rightarrow>
          (case run cs s1 of None \<Rightarrow> None | Some (reps, s2) \<Rightarrow> Some (rep # reps, s2)))"

text \<open>
  \<open>Reads ns\<close> is the loop of a caller that reads with buffers of the sizes \<open>ns\<close> and stops
  at the first call that reports an error or end-of-stream.
\<close>

fun Reads ::
  "nat list \<Rightarrow> objectReadSeeker \<times> transport \<Rightarrow>
     ((byte list \<times> error option) list \<times> objectReadSeeker \<times> transport) option" where
  "Reads [] s = Some ([], s)"
| "Reads (n # ns) s =
     (case objectReadSeeker_Read n s of
        None \<Rightarrow> None
      | Some (res, s1) \<Rightarrow>
          if snd res = None
          then (case Reads ns s1 of None \<Rightarrow> None | Some (rs, s2) \<Rightarrow> Some (res # rs, s2))
          else Some ([res], s1))"

text \<open>
  What such a loop has returned, against the bytes \<open>xs\<close> that were to come. Either it ended
  with end-of-stream: then that is the status of the last read and of no other, and the
  slices add up to \<open>xs\<close>. Or every read was made and none reported a status: then the
  slices add up to a prefix of \<open>xs\<close>. With more non-empty buffers than bytes the loop has
  ended.
\<close>

definition ends_with_EOF :: "(byte list \<times> error option) list \<Rightarrow> bool" where
  "ends_with_EOF outs = (map snd outs = replicate (length outs - 1) None @ [Some EOF])"

definition summary :: "nat list \<Rightarrow> byte list \<Rightarrow> (byte list \<times> error option) list \<Rightarrow> bool" where
  "summary ns xs outs =
     ((if ends_with_EOF outs
       then concat (map fst outs) = xs \<and> count_list (map snd outs) (Some EOF) = 1
       else list_all (\<lambda>out. snd out = None) outs \<and> length outs = length ns \<and>
            prefix (concat (map fst outs)) xs) \<and>
      (\<not> length xs < length (filter (\<lambda>n. 0 < n) ns) \<or> ends_with_EOF outs))"





text \<open>A stream in the middle of a fault-free fetch with the bytes \<open>xs\<close> still to come.\<close>

definition live :: "handle \<Rightarrow> byte list \<Rightarrow> objectReadSeeker \<times> transport \<Rightarrow> bool" where
  "live rd xs s =
     (case s of (r, t) \<Rightarrow>
        isRead r \<and> reader r = Some rd \<and> rd < length (bodies t) \<and>
        bodies t ! rd = \<lparr>pending = xs, ending = EOF, closed = False\<rparr>)"

text \<open>The example of the specification: an object of ten bytes behind a fresh transport.\<close>

definition blob :: "byte list" where
  "blob = [0, 1, 2, 3, 4, 5, 6, 7, 8, 9]"

definition demo :: "fault list \<Rightarrow> transport" where
  "demo fs =
     \<lparr>objects = [((''bucket'', ''blob''), blob)], bodies = [], faults = fs,
      eager_eof = True, closed_err = ErrorResponse ''read on closed body''\<rparr>"

section \<open>The file system consumed by tempFile\<close>

text \<open>
  \<open>io.go\<close> reaches the file system through the Go standard library: \<open>os.TempDir\<close>,
  \<open>ioutil.TempFile\<close>, \<open>filepath.Join\<close>, \<open>filepath.Glob\<close>, \<open>os.Remove\<close> and the \<open>Close\<close> and
  \<open>Name\<close> of \<open>os.File\<close>. They are modelled here for a Unix system, after the library's
  documentation. The file system is an explicit world: the temp directory of the process,
  the existing paths (absolute and clean; a path with paths below it is a directory that
  is not empty), the entries whose removal the system denies, the open descriptors, and
  the suffixes that the generator of \<open>ioutil.TempFile\<close> will yield next.
  A character is a byte.
\<close>

datatype errno = ENOENT | ENOTEMPTY | EACCES | EEXIST | EBADF

datatype oserror = ErrBadPattern | PathError string string errno

record osFile =
  fname :: string
  fd :: nat

record filesystem =
  TempDir :: string
  paths :: "string list"
  locked :: "string list"
  descriptors :: "nat list"
  next_fd :: nat
  random :: "string list"

subsection \<open>path/filepath: Clean, Join, Split\<close>

fun split_on :: "char \<Rightarrow> string \<Rightarrow> string list" where
  "split_on c [] = [[]]"
| "split_on c (x # xs) =
     (if x = c then [] # split_on c xs
      else (case split_on c xs of [] \<Rightarrow> [[x]] | w # ws \<Rightarrow> (x # w) # ws))"

fun join_with :: "char \<Rightarrow> string list \<Rightarrow> string" where
  "join_with c [] = []"
| "join_with c [w] = w"
| "join_with c (w # ws) = w @ c # join_with c ws"

text \<open>
  \<open>Clean\<close> drops empty and \<open>.\<close> elements, lets \<open>..\<close> cancel the element before it, drops
  \<open>..\<close> at the root, and returns \<open>.\<close> for an empty result. \<open>clean_step\<close> treats one element;
  \<open>out\<close> holds the elements kept so far, the last one first.
\<close>

definition clean_step :: "bool \<Rightarrow> string list \<Rightarrow> string \<Rightarrow> string list" where
  "clean_step rooted out el =
     (if el = [] \<or> el = ''.'' then out
      else if el = ''..'' then
        (case out of
           [] \<Rightarrow> if rooted then [] else [''..'']
         | w # ws \<Rightarrow> if w = ''..'' then ''..'' # out else ws)
      else el # out)"

definition Clean :: "string \<Rightarrow> string" where
  "Clean path =
     (if path = [] then ''.''
      else
        let rooted = (hd path = CHR ''/'');
            out = rev (foldl (clean_step rooted) [] (split_on (CHR ''/'') path));
            body = join_with (CHR ''/'') out
        in if rooted then CHR ''/'' # body else if body = [] then ''.'' else body)"

text \<open>\<open>Join\<close> of two elements: empty leading elements are ignored, the result is cleaned.\<close>

definition Join :: "string \<Rightarrow> string \<Rightarrow> string" where
  "Join a b =
     (if a \<noteq> [] then Clean (a @ CHR ''/'' # b) else if b \<noteq> [] then Clean b else [])"

text \<open>\<open>Split\<close> cuts a path right after its last separator.\<close>

definition Split :: "string \<Rightarrow> string \<times> string" where
  "Split path =
     (let file = rev (takeWhile (\<lambda>c. c \<noteq> CHR ''/'') (rev path))
      in (take (length path - length file) path, file))"

subsection \<open>path/filepath: Match\<close>

text \<open>
  The pattern syntax of \<open>filepath.Match\<close>: \<open>*\<close> matches any sequence of non-separator
  characters, \<open>?\<close> any single non-separator character, \<open>[...]\<close> a non-empty class of
  characters and ranges (negated by a leading \<open>^\<close>), a backslash escapes the character
  after it, and any other character matches itself. A malformed pattern is
  \<open>ErrBadPattern\<close>.
\<close>

datatype glob_term = Star | AnyChar | Lit char | Class bool "(char \<times> char) list"

fun getEsc :: "string \<Rightarrow> (char \<times> string) option" where
  "getEsc [] = None"
| "getEsc (c # cs) =
     (if c = CHR ''-'' \<or> c = CHR '']'' then None
      else if c = CHR 0x5C then
        (case cs of [] \<Rightarrow> None | d # ds \<Rightarrow> if ds = [] then None else Some (d, ds))
      else if cs = [] then None else Some (c, cs))"

lemma getEsc_shorter: "getEsc p = Some (c, rest) \<Longrightarrow> length rest < length p"
  by (cases p) (auto split: if_splits list.splits)

function parse_ranges ::
  "string \<Rightarrow> (char \<times> char) list \<Rightarrow> ((char \<times> char) list \<times> string) option" where
  "parse_ranges p acc =
     (case p of
        [] \<Rightarrow> None
      | c # cs \<Rightarrow>
          if c = CHR '']'' \<and> acc \<noteq> [] then Some (rev acc, cs)
          else
            (case getEsc p of
               None \<Rightarrow> None
             | Some (lo, rest) \<Rightarrow>
                 (case rest of
                    [] \<Rightarrow> None
                  | d # ds \<Rightarrow>
                      if d = CHR ''-'' then
                        (case getEsc ds of
                           None \<Rightarrow> None
                         | Some (hi, rest') \<Rightarrow> parse_ranges rest' ((lo, hi) # acc))
                      else parse_ranges rest ((lo, lo) # acc))))"
  by pat_completeness auto
termination
  apply (relation "measure (\<lambda>(p, acc). length p)")
    apply simp
   apply (auto simp del: getEsc.simps dest!: getEsc_shorter)
  done

lemma parse_ranges_shorter:
  "parse_ranges p acc = Some (rs, rest) \<Longrightarrow> length rest < length p"
proof (induction p acc rule: parse_ranges.induct)
  case (1 p acc)
  show ?case
  proof (cases p)
    case Nil
    with "1.prems" show ?thesis by (simp add: parse_ranges.simps [of p])
  next
    case (Cons c cs)
    show ?thesis
    proof (cases "c = CHR '']'' \<and> acc \<noteq> []")
      case True
      with "1.prems" Cons show ?thesis by (auto simp: parse_ranges.simps [of p])
    next
      case False
      with "1.prems" Cons obtain lo rest1 where g: "getEsc p = Some (lo, rest1)"
        by (auto simp: parse_ranges.simps [of p] simp del: getEsc.simps split: option.splits)
      from getEsc_shorter [OF g] have l1: "length rest1 < length p" .
      from "1.prems" Cons False g obtain d ds where r1: "rest1 = d # ds"
        by (cases rest1) (auto simp: parse_ranges.simps [of p] simp del: getEsc.simps)
      show ?thesis
      proof (cases "d = CHR ''-''")
        case True
        with "1.prems" Cons False g r1 obtain hi rest2 where
          g2: "getEsc ds = Some (hi, rest2)" and
          pr: "parse_ranges rest2 ((lo, hi) # acc) = Some (rs, rest)"
          by (auto simp: parse_ranges.simps [of p] simp del: getEsc.simps split: option.splits)
        from "1.IH"(1) [OF Cons False g refl r1 True g2 refl pr]
          getEsc_shorter [OF g2] l1 r1
        show ?thesis by simp
      next
        case F2: False
        with "1.prems" Cons False g r1 have
          pr: "parse_ranges rest1 ((lo, lo) # acc) = Some (rs, rest)"
          by (auto simp: parse_ranges.simps [of p] simp del: getEsc.simps)
        from "1.IH"(2) [OF Cons False g refl r1 F2 pr] l1
        show ?thesis by simp
      qed
    qed
  qed
qed

declare parse_ranges.simps [simp del]

function parse :: "string \<Rightarrow> glob_term list option" where
  "parse [] = Some []"
| "parse (c # p) =
     (if c = CHR ''*'' then map_option (Cons Star) (parse p)
      else if c = CHR ''?'' then map_option (Cons AnyChar) (parse p)
      else if c = CHR ''['' then
        (let negated = (p \<noteq> [] \<and> hd p = CHR ''^'') in
         case parse_ranges (if negated then tl p else p) [] of
           None \<Rightarrow> None
         | Some (rs, rest) \<Rightarrow> map_option (Cons (Class negated rs)) (parse rest))
      else if c = CHR 0x5C then
        (case p of [] \<Rightarrow> None | d # ds \<Rightarrow> map_option (Cons (Lit d)) (parse ds))
      else map_option (Cons (Lit c)) (parse p))"
  by pat_completeness auto
termination
  apply (relation "measure length")
       apply simp_all
  apply (auto dest!: parse_ranges_shorter split: if_splits)
  done

fun in_ranges :: "char \<Rightarrow> (char \<times> char) list \<Rightarrow> bool" where
  "in_ranges c [] = False"
| "in_ranges c ((lo, hi) # rs) = ((lo \<le> c \<and> c \<le> hi) \<or> in_ranges c rs)"

fun matches :: "glob_term list \<Rightarrow> string \<Rightarrow> bool" where
  "matches [] s = (s = [])"
| "matches (Star # ts) [] = matches ts []"
| "matches (Star # ts) (c # cs) =
     (matches ts (c # cs) \<or> (c \<noteq> CHR ''/'' \<and> matches (Star # ts) cs))"
| "matches (AnyChar # ts) [] = False"
| "matches (AnyChar # ts) (c # cs) = (c \<noteq> CHR ''/'' \<and> matches ts cs)"
| "matches (Lit a # ts) [] = False"
| "matches (Lit a # ts) (c # cs) = (a = c \<and> matches ts cs)"
| "matches (Class negated rs # ts) [] = False"
| "matches (Class negated rs # ts) (c # cs) = (in_ranges c rs \<noteq> negated \<and> matches ts cs)"

definition Match :: "string \<Rightarrow> string \<Rightarrow> oserror + bool" where
  "Match pattern name =
     (case parse pattern of None \<Rightarrow> Inl ErrBadPattern | Some ts \<Rightarrow> Inr (matches ts name))"

subsection \<open>os: Stat, Readdirnames, Remove\<close>

definition below :: "string \<Rightarrow> string \<Rightarrow> bool" where
  "below dir q = prefix (if dir = ''/'' then dir else dir @ ''/'') q"

text \<open>
  A path exists when it is the root, when it is listed, or when a listed path lies below
  it (it is then a directory on the way to that path).
\<close>

definition exists_path :: "string \<Rightarrow> filesystem \<Rightarrow> bool" where
  "exists_path p fs = (p = ''/'' \<or> p \<in> set (paths fs) \<or> list_ex (below p) (paths fs))"

text \<open>The name under which the path \<open>q\<close> is an entry of the directory \<open>dir\<close>, if it is one.\<close>

definition entry_name :: "string \<Rightarrow> string \<Rightarrow> string option" where
  "entry_name dir q =
     (let pre = (if dir = ''/'' then dir else dir @ ''/''); n = drop (length pre) q
      in if prefix pre q \<and> n \<noteq> [] \<and> CHR ''/'' \<notin> set n then Some n else None)"

definition Readdirnames :: "string \<Rightarrow> filesystem \<Rightarrow> string list" where
  "Readdirnames dir fs = List.map_filter (entry_name dir) (paths fs)"

text \<open>
  \<open>os.Remove\<close> removes a file or an empty directory. It fails on a path that does not
  exist, on a directory that is not empty, and on an entry the system protects.
\<close>

definition Remove :: "string \<Rightarrow> filesystem \<Rightarrow> oserror option \<times> filesystem" where
  "Remove name fs =
     (if name \<notin> set (paths fs) then (Some (PathError ''remove'' name ENOENT), fs)
      else if list_ex (\<lambda>q. q \<noteq> name \<and> below name q) (paths fs)
        then (Some (PathError ''remove'' name ENOTEMPTY), fs)
      else if name \<in> set (locked fs) then (Some (PathError ''remove'' name EACCES), fs)
      else (None, fs\<lparr>paths := removeAll name (paths fs)\<rparr>))"

subsection \<open>path/filepath: Glob\<close>

text \<open>
  \<open>Glob\<close> returns a pattern without \<open>*\<close>, \<open>?\<close> or \<open>[\<close> as it is when the path exists.
  Otherwise it splits the pattern into directory and file pattern, expands the directory
  first when that has metacharacters itself, and matches the file pattern against the
  sorted names of each directory. Directories that cannot be read yield nothing; the only
  error is \<open>ErrBadPattern\<close>.
\<close>

definition hasMeta :: "string \<Rightarrow> bool" where
  "hasMeta path = list_ex (\<lambda>c. c = CHR ''*'' \<or> c = CHR ''?'' \<or> c = CHR ''['') path"

fun glob_names ::
  "string \<Rightarrow> string \<Rightarrow> string list \<Rightarrow> string list \<Rightarrow> oserror + string list" where
  "glob_names dir pattern [] m = Inr m"
| "glob_names dir pattern (n # ns) m =
     (case Match pattern n of
        Inl err \<Rightarrow> Inl err
      | Inr matched \<Rightarrow> glob_names dir pattern ns (if matched then m @ [Join dir n] else m))"

definition glob ::
  "string \<Rightarrow> string \<Rightarrow> string list \<Rightarrow> filesystem \<Rightarrow> oserror + string list" where
  "glob dir pattern m fs =
     (if \<not> exists_path dir fs then Inr m
      else glob_names dir pattern (sort (Readdirnames dir fs)) m)"

fun glob_dirs ::
  "string list \<Rightarrow> string \<Rightarrow> string list \<Rightarrow> filesystem \<Rightarrow> oserror + string list" where
  "glob_dirs [] file m fs = Inr m"
| "glob_dirs (d # ds) file m fs =
     (case glob d file m fs of Inl err \<Rightarrow> Inl err | Inr m1 \<Rightarrow> glob_dirs ds file m1 fs)"

definition glob_dir :: "string \<Rightarrow> string" where
  "glob_dir pattern =
     (let dir = fst (Split pattern)
      in if dir = [] then ''.'' else if dir = ''/'' then dir else butlast dir)"

function Glob :: "string \<Rightarrow> filesystem \<Rightarrow> oserror + string list" where
  "Glob pattern fs =
     (if \<not> hasMeta pattern then (if exists_path pattern fs then Inr [pattern] else Inr [])
      else if \<not> hasMeta (glob_dir pattern)
        then glob (glob_dir pattern) (snd (Split pattern)) [] fs
      else (case Glob (glob_dir pattern) fs of
              Inl err \<Rightarrow> Inl err
            | Inr m \<Rightarrow> glob_dirs m (snd (Split pattern)) [] fs))"
  by pat_completeness auto

lemma glob_dir_shorter:
  "hasMeta (glob_dir pattern) \<Longrightarrow> length (glob_dir pattern) < length pattern"
  by (auto simp: glob_dir_def Split_def Let_def hasMeta_def split: if_splits)

termination Glob
  by (relation "measure (\<lambda>(pattern, fs). length pattern)") (auto simp: glob_dir_shorter)

declare Glob.simps [simp del]

subsection \<open>io/ioutil: TempFile, and os.File\<close>

text \<open>
  \<open>TempFile\<close> joins the directory with the prefix and a generated suffix and creates that
  file exclusively; while the name exists already it tries the next suffix, up to 10000
  times.
\<close>

definition parent :: "string \<Rightarrow> string" where
  "parent name =
     (let dir = fst (Split name) in if dir = [] \<or> dir = ''/'' then dir else butlast dir)"

definition OpenFile_excl :: "string \<Rightarrow> filesystem \<Rightarrow> (oserror + osFile) \<times> filesystem" where
  "OpenFile_excl name fs =
     (if exists_path name fs then (Inl (PathError ''open'' name EEXIST), fs)
      else if \<not> exists_path (parent name) fs then (Inl (PathError ''open'' name ENOENT), fs)
      else (Inr \<lparr>fname = name, fd = next_fd fs\<rparr>,
            fs\<lparr>paths := name # paths fs, descriptors := next_fd fs # descriptors fs,
               next_fd := Suc (next_fd fs)\<rparr>))"

definition IsExist :: "oserror \<Rightarrow> bool" where
  "IsExist err = (case err of PathError _ _ EEXIST \<Rightarrow> True | _ \<Rightarrow> False)"

definition nextSuffix :: "filesystem \<Rightarrow> string" where
  "nextSuffix fs = (case random fs of [] \<Rightarrow> [] | s # ss \<Rightarrow> s)"

fun TempFile_loop ::
  "nat \<Rightarrow> string \<Rightarrow> string \<Rightarrow> filesystem \<Rightarrow> (oserror + osFile) \<times> filesystem" where
  "TempFile_loop 0 dir pfx fs = (Inl (PathError ''open'' dir EEXIST), fs)"
| "TempFile_loop (Suc k) dir pfx fs =
     (let name = Join dir (pfx @ nextSuffix fs);
          fs1 = fs\<lparr>random := tl (random fs)\<rparr>
      in case OpenFile_excl name fs1 of
           (Inl err, fs2) \<Rightarrow>
              if IsExist err \<and> k \<noteq> 0 then TempFile_loop k dir pfx fs2 else (Inl err, fs2)
         | (Inr f, fs2) \<Rightarrow> (Inr f, fs2))"

definition TempFile ::
  "string \<Rightarrow> string \<Rightarrow> filesystem \<Rightarrow> (oserror + osFile) \<times> filesystem" where
  "TempFile dir pfx fs = TempFile_loop 10000 (if dir = [] then TempDir fs else dir) pfx fs"

text \<open>\<open>Close\<close> of an \<open>os.File\<close> fails on a descriptor that is not open.\<close>

definition File_Close :: "osFile \<Rightarrow> filesystem \<Rightarrow> oserror option \<times> filesystem" where
  "File_Close f fs =
     (if fd f \<in> set (descriptors fs)
      then (None, fs\<lparr>descriptors := removeAll (fd f) (descriptors fs)\<rparr>)
      else (Some (PathError ''close'' (fname f) EBADF), fs))"

section \<open>tempFile\<close>

text \<open>
  The struct of \<open>io.go\<close>: the embedded \<open>*os.File\<close>, \<open>nil\<close> once the file has been closed
  and removed. The mutex serialises \<open>Close\<close>; each call below is one serialised call.
\<close>

record tempFile =
  File :: "osFile option"

definition newTempFile :: "string \<Rightarrow> filesystem \<Rightarrow> (oserror + tempFile) \<times> filesystem" where
  "newTempFile pfx fs =
     (case TempFile (TempDir fs) pfx fs of
        (Inl err, fs1) \<Rightarrow> (Inl err, fs1)
      | (Inr file, fs1) \<Rightarrow> (Inr \<lparr>File = Some file\<rparr>, fs1))"

text \<open>The loop of \<open>cleanupStaleTempfiles\<close> over the paths that \<open>Glob\<close> returned.\<close>

fun remove_each :: "string list \<Rightarrow> filesystem \<Rightarrow> oserror option \<times> filesystem" where
  "remove_each [] fs = (None, fs)"
| "remove_each (staleFile # rest) fs =
     (case Remove staleFile fs of
        (Some err, fs1) \<Rightarrow> (Some err, fs1)
      | (None, fs1) \<Rightarrow> remove_each rest fs1)"

definition cleanupStaleTempfiles :: "string \<Rightarrow> filesystem \<Rightarrow> oserror option \<times> filesystem" where
  "cleanupStaleTempfiles pfx fs =
     (let globPath = Join (TempDir fs) pfx @ ''*'' in
      case Glob globPath fs of
        Inl err \<Rightarrow> (Some err, fs)
      | Inr staleFiles \<Rightarrow> remove_each staleFiles fs)"

definition tempFile_Close ::
  "tempFile \<Rightarrow> filesystem \<Rightarrow> oserror option \<times> tempFile \<times> filesystem" where
  "tempFile_Close t fs =
     (case File t of
        Some f \<Rightarrow>
          (case File_Close f fs of
             (Some err, fs1) \<Rightarrow> (Some err, t, fs1)
           | (None, fs1) \<Rightarrow>
               (case Remove (fname f) fs1 of
                  (Some err, fs2) \<Rightarrow> (Some err, t, fs2)
                | (None, fs2) \<Rightarrow> (None, t\<lparr>File := None\<rparr>, fs2)))
      | None \<Rightarrow> (None, t, fs))"

subsection \<open>The sweep as the specification words it\<close>

text \<open>
  The specification speaks of the entries of the temp directory whose name starts with
  the prefix. The temp directory is the directory that the path \<open>os.TempDir()\<close> leads to,
  which is that path cleaned. \<open>entry_path\<close> is the path of the entry of a directory with
  a given name, \<open>stale\<close> says of one path that it is such an entry of the temp directory,
  and \<open>stale_files\<close> lists those paths in the order of their names.
\<close>

definition tempdir :: "filesystem \<Rightarrow> string" where
  "tempdir fs = Clean (TempDir fs)"

definition entry_path :: "string \<Rightarrow> string \<Rightarrow> string" where
  "entry_path dir n = (if dir = ''/'' then dir else dir @ ''/'') @ n"


definition stale_files :: "string \<Rightarrow> filesystem \<Rightarrow> string list" where
  "stale_files p fs =
     map (entry_path (tempdir fs)) (filter (prefix p) (sort (Readdirnames (tempdir fs) fs)))"



definition plain_tmp :: "filesystem \<Rightarrow> bool" where
  "plain_tmp fs =
     (TempDir fs \<noteq> [] \<and> hd (TempDir fs) = CHR ''/'' \<and> \<not> hasMeta (tempdir fs))"

text \<open>An example: the temp directory \<open>/tmp\<close> holding the paths \<open>ps\<close>, of which \<open>ls\<close> are protected.\<close>

definition tmpfs :: "string list \<Rightarrow> string list \<Rightarrow> filesystem" where
  "tmpfs ps ls =
     \<lparr>TempDir = ''/tmp'', paths = ''/tmp'' # ps, locked = ls, descriptors = [], next_fd = 3,
      random = [''000'', ''001'', ''002'']\<rparr>"

section \<open>Facts about the transport\<close>

lemma Copy_Discard_idle:
  "rd < length (bodies t) \<Longrightarrow> closed (bodies t ! rd) \<or> pending (bodies t ! rd) = [] \<Longrightarrow>
   Copy_Discard rd t = t"
  by (subst Copy_Discard.simps) (auto simp: reader_Read_def body_Read_def Let_def)

lemma Copy_Discard_invalid: "\<not> rd < length (bodies t) \<Longrightarrow> Copy_Discard rd t = t"
  by (subst Copy_Discard.simps) (simp add: reader_Read_def)

lemma reader_Read_error_idle:
  "reader_Read rd n t = ((bs, Some e), t') \<Longrightarrow> rd < length (bodies t) \<Longrightarrow>
   rd < length (bodies t') \<and> (closed (bodies t' ! rd) \<or> pending (bodies t' ! rd) = [])"
  by (auto simp: reader_Read_def body_Read_def split: if_splits)

lemma reader_Read_error_drained:
  "reader_Read rd n t = ((bs, Some e), t') \<Longrightarrow> Copy_Discard rd t' = t'"
  apply (cases "rd < length (bodies t)")
   apply (frule (1) reader_Read_error_idle)
   apply (simp add: Copy_Discard_idle)
  apply (auto simp: reader_Read_def Copy_Discard_invalid)
  done

section \<open>Facts about Read\<close>

lemma Read_active:
  "isRead r \<Longrightarrow> reader r = Some rd \<Longrightarrow>
   objectReadSeeker_Read n (r, t) =
     (case reader_Read rd n t of
        ((bs, Some err), t2) \<Rightarrow>
           Some ((if err = EOF then bs else [], Some err), r, reader_Close rd t2)
      | ((bs, None), t2) \<Rightarrow> Some ((bs, None), r, t2))"
  by (auto simp: objectReadSeeker_Read_def reader_Read_error_drained split: prod.splits option.splits)


lemma Read_idle_ok:
  "\<not> isRead r \<Longrightarrow> getObject (bucketName r) (objectName r) (offset r) 0 t = (Inr rd, t1) \<Longrightarrow>
   objectReadSeeker_Read n (r, t) =
     objectReadSeeker_Read n (r\<lparr>reader := Some rd, isRead := True\<rparr>, t1)"
  by (simp add: objectReadSeeker_Read_def)












lemma list_update_same: "xs ! i = b \<Longrightarrow> xs[i := b] = xs"
  by auto

lemma Read_live:
  assumes "live rd xs (r, t)"
  shows "objectReadSeeker_Read n (r, t) =
     (if xs = [] then Some (([], Some EOF), r, reader_Close rd t)
      else if n = 0 then Some (([], None), r, t)
      else if eager_eof t \<and> length xs \<le> n
        then Some ((xs, Some EOF), r,
               reader_Close rd (t\<lparr>bodies := (bodies t)[rd := \<lparr>pending = [], ending = EOF, closed = False\<rparr>]\<rparr>))
      else Some ((take n xs, None), r,
               t\<lparr>bodies := (bodies t)[rd := \<lparr>pending = drop n xs, ending = EOF, closed = False\<rparr>]\<rparr>))"
  using assms
  by (auto simp: live_def Read_active reader_Read_def body_Read_def list_update_same)

lemma ends_with_EOF_single [simp]: "ends_with_EOF [(bs, Some EOF)]"
  by (simp add: ends_with_EOF_def)

lemma ends_with_EOF_Cons [simp]:
  "ends_with_EOF ((bs, None) # outs) = ends_with_EOF outs"
proof (cases outs)
  case Nil
  then show ?thesis by (simp add: ends_with_EOF_def)
next
  case (Cons a list)
  then show ?thesis by (simp add: ends_with_EOF_def)
qed

lemma ends_with_EOF_Nil [simp]: "\<not> ends_with_EOF []"
  by (simp add: ends_with_EOF_def)

lemma summary_stop: "summary ns xs [(xs, Some EOF)]"
  by (simp add: summary_def)

lemma summary_step:
  assumes "summary ns (drop n xs) outs" and "xs \<noteq> []"
  shows "summary (n # ns) xs ((take n xs, None) # outs)"
proof -
  have p: "prefix (concat (map fst outs)) (drop n xs) \<Longrightarrow>
      prefix (take n xs @ concat (map fst outs)) xs"
    by (metis append_take_drop_id same_prefix_prefix)
  have l: "0 < n \<Longrightarrow> length (drop n xs) < length xs" using assms(2) by simp
  show ?thesis
    using assms(1) p l
    by (cases "n = 0") (auto simp: summary_def split: if_splits)
qed

lemma Reads_live_summary:
  "live rd xs (r, t) \<Longrightarrow> \<exists>outs s'. Reads ns (r, t) = Some (outs, s') \<and> summary ns xs outs"
proof (induction ns arbitrary: t xs)
  case Nil
  then show ?case by (simp add: summary_def)
next
  case (Cons n ns)
  note rl = Read_live [OF Cons.prems(1), of n]
  show ?case
  proof (cases "xs = [] \<or> (n \<noteq> 0 \<and> eager_eof t \<and> length xs \<le> n)")
    case True
    then show ?thesis using rl summary_stop [of "n # ns" xs] by auto
  next
    case False
    let ?t = "t\<lparr>bodies := (bodies t)[rd := \<lparr>pending = drop n xs, ending = EOF, closed = False\<rparr>]\<rparr>"
    have lv: "live rd (drop n xs) (r, ?t)"
      using Cons.prems(1) by (simp add: live_def)
    have same: "n = 0 \<Longrightarrow> ?t = t"
      using Cons.prems(1) by (simp add: live_def list_update_same)
    have rd: "objectReadSeeker_Read n (r, t) = Some ((take n xs, None), r, ?t)"
      using rl False same by auto
    from Cons.IH [OF lv] obtain outs s' where
      o: "Reads ns (r, ?t) = Some (outs, s')" "summary ns (drop n xs) outs" by blast
    from False have "xs \<noteq> []" by simp
    from summary_step [OF o(2) this] have "summary (n # ns) xs ((take n xs, None) # outs)" .
    with rd o(1) show ?thesis by simp
  qed
qed

lemma getObject_whole:
  "next_fault t = NoFault \<Longrightarrow> map_of (objects t) (b, k) = Some content \<Longrightarrow>
   getObject b k 0 0 t =
     (Inr (length (bodies t)),
      t\<lparr>faults := tl (faults t),
        bodies := bodies t @ [\<lparr>pending = content, ending = EOF, closed = False\<rparr>]\<rparr>)"
  by (simp add: getObject_def open_body_def)

lemmas eval_defs = demo_def blob_def newObjectReadSeeker_def objectReadSeeker_Read_def
  getObject_def next_fault_def open_body_def reader_Read_def body_Read_def reader_Close_def
  Copy_Discard_idle objectReadSeeker_Seek_def objectReadSeeker_Size_def headObject_def

section \<open>Reading\<close>



text \<open>
  C2. On a transport that injects no fault into the fetch, let a caller of a fresh stream
  read with any buffer sizes \<open>ns\<close>, never seeking, until the first error or end-of-stream.
  The reads do not panic. When they end with end-of-stream, the slices returned add up to
  the whole object and end-of-stream is the status of the last read only: it is reported
  exactly once. Before that no read reports any status and the slices add up to a prefix
  of the object. With more non-empty buffers than the object has bytes the reads do end
  with end-of-stream.
\<close>

theorem sequential_Reads_return_whole_object_then_EOF_once:
  assumes "next_fault t0 = NoFault"
    and "map_of (objects t0) (bucket, object) = Some content"
  shows "\<exists>outs s'. Reads ns (newObjectReadSeeker bucket object, t0) = Some (outs, s') \<and>
           summary ns content outs"
proof (cases ns)
  case Nil
  then show ?thesis by (simp add: summary_def)
next
  case (Cons n ns')
  let ?r = "newObjectReadSeeker bucket object"
  let ?r1 = "?r\<lparr>reader := Some (length (bodies t0)), isRead := True\<rparr>"
  let ?t1 = "t0\<lparr>faults := tl (faults t0),
        bodies := bodies t0 @ [\<lparr>pending = content, ending = EOF, closed = False\<rparr>]\<rparr>"
  have g: "getObject (bucketName ?r) (objectName ?r) (offset ?r) 0 t0 = (Inr (length (bodies t0)), ?t1)"
    using getObject_whole [OF assms(1,2)] by (simp add: newObjectReadSeeker_def)
  have idle: "\<not> isRead ?r" by (simp add: newObjectReadSeeker_def)
  have step: "objectReadSeeker_Read n (?r, t0) = objectReadSeeker_Read n (?r1, ?t1)"
    by (rule Read_idle_ok [OF idle g])
  have lv: "live (length (bodies t0)) content (?r1, ?t1)"
    by (simp add: live_def)
  have eq: "Reads ns (?r, t0) = Reads ns (?r1, ?t1)"
    using Cons by (simp add: step)
  from Reads_live_summary [OF lv, of ns] eq show ?thesis by simp
qed

text \<open>C2, witness: the ten-byte object read through buffers of four bytes.\<close>

theorem sequential_Reads_witness:
  "next_fault (demo []) = NoFault \<and>
   map_of (objects (demo [])) (''bucket'', ''blob'') = Some blob \<and>
   (\<exists>s'. Reads [4, 4, 4] (newObjectReadSeeker ''bucket'' ''blob'', demo []) =
      Some ([([0, 1, 2, 3], None), ([4, 5, 6, 7], None), ([8, 9], Some EOF)], s')) \<and>
   summary [4, 4, 4] blob [([0, 1, 2, 3], None), ([4, 5, 6, 7], None), ([8, 9], Some EOF)] \<and>
   ends_with_EOF [([0, 1, 2, 3], None), ([4, 5, 6, 7], None), ([8, 9], Some EOF)]"
proof -
  have h1: "next_fault (demo []) = NoFault" by (simp add: demo_def next_fault_def)
  have h2: "map_of (objects (demo [])) (''bucket'', ''blob'') = Some blob" by (simp add: demo_def)
  from sequential_Reads_return_whole_object_then_EOF_once [OF h1 h2, of "[4, 4, 4]"]
  obtain outs s' where
    o: "Reads [4, 4, 4] (newObjectReadSeeker ''bucket'' ''blob'', demo []) = Some (outs, s')"
       "summary [4, 4, 4] blob outs"
    by blast
  have "map_option fst (Reads [4, 4, 4] (newObjectReadSeeker ''bucket'' ''blob'', demo [])) =
      Some [([0, 1, 2, 3], None), ([4, 5, 6, 7], None), ([8, 9], Some EOF)]"
    by (simp add: eval_defs)
  with o have e: "outs = [([0, 1, 2, 3], None), ([4, 5, 6, 7], None), ([8, 9], Some EOF)]"
    by simp
  have "ends_with_EOF [([0, 1, 2, 3], None), ([4, 5, 6, 7], None), ([8, 9 :: byte], Some EOF)]"
    by simp
  with o e h1 h2 show ?thesis by blast
qed

text \<open>
  C6. When the stream has no active fetch and \<open>getObject\<close> fails, \<open>Read\<close> returns no bytes
  and the error of \<open>getObject\<close>, and the stream is exactly what it was before the call:
  offset, active-fetch flag, held handle and every other field.
\<close>

theorem fetch_initiation_failure_leaves_stream_unchanged:
  assumes "\<not> isRead r"
    and "getObject (bucketName r) (objectName r) (offset r) 0 t = (Inl err, t1)"
  shows "objectReadSeeker_Read n (r, t) = Some (([], Some err), r, t1)"
  using assms by (simp add: objectReadSeeker_Read_def)

text \<open>C6, witness: a read of an object the transport does not hold.\<close>

theorem fetch_initiation_failure_witness:
  "\<not> isRead (newObjectReadSeeker ''bucket'' ''absent'') \<and>
   getObject ''bucket'' ''absent'' 0 0 (demo []) = (Inl (ErrorResponse ''NoSuchKey''), demo []) \<and>
   objectReadSeeker_Read 4 (newObjectReadSeeker ''bucket'' ''absent'', demo []) =
     Some (([], Some (ErrorResponse ''NoSuchKey'')), newObjectReadSeeker ''bucket'' ''absent'', demo [])"
proof -
  let ?r = "newObjectReadSeeker ''bucket'' ''absent''"
  have a: "\<not> isRead ?r" by (simp add: newObjectReadSeeker_def)
  have b: "getObject (bucketName ?r) (objectName ?r) (offset ?r) 0 (demo []) =
      (Inl (ErrorResponse ''NoSuchKey''), demo [])"
    by (simp add: eval_defs)
  from fetch_initiation_failure_leaves_stream_unchanged [OF a b, of 4] a b
  show ?thesis by (simp add: newObjectReadSeeker_def)
qed

text \<open>
  C4, evaluated: the connection breaks after three bytes, which the body reports with
  the error. The first \<open>Read\<close> returns no bytes and the error and closes the body, but the
  stream is still marked as reading and still holds handle 0. The repeated \<open>Read\<close> starts
  no fetch: it reads the closed body again, and the transport has handed out one body
  only.
\<close>

theorem failed_Read_keeps_closed_handle:
  "run [CallRead 10, CallRead 10]
      (newObjectReadSeeker ''bucket'' ''blob'', demo [BreakAfter 3 (ErrorResponse ''connection reset'')]) =
     Some ([ReadReply [] (Some (ErrorResponse ''connection reset'')),
            ReadReply [] (Some (ErrorResponse ''read on closed body''))],
       (newObjectReadSeeker ''bucket'' ''blob'')\<lparr>reader := Some 0, isRead := True\<rparr>,
       (demo [])\<lparr>bodies := [\<lparr>pending = [], ending = ErrorResponse ''connection reset'', closed = True\<rparr>]\<rparr>)"
  by (simp add: eval_defs)

section \<open>Seek\<close>

text \<open>
  C10. For every offset (negative ones included) and every whence, \<open>Seek\<close> stores the
  offset it is given and returns exactly that offset with no error; no other field of the
  stream changes and neither argument is validated.
\<close>

theorem Seek_stores_offset_unconditionally:
  "objectReadSeeker_Seek off whence r = ((off, None), r\<lparr>offset := off\<rparr>)"
  by (simp add: objectReadSeeker_Seek_def)

text \<open>
  C1, evaluated on the example of the specification: ten bytes, \<open>Read\<close> of five bytes,
  \<open>Seek(2)\<close>, \<open>Read\<close> of ten bytes. \<open>Seek\<close> neither closes the active body nor clears
  \<open>isRead\<close>, so the second \<open>Read\<close> continues the old fetch and returns bytes 5 to 9, where a
  fresh stream that seeks to 2 returns bytes 2 to 9.
\<close>

theorem Seek_during_fetch_serves_stale_bytes:
  "map_option fst (run [CallRead 5, CallSeek 2 0, CallRead 10]
       (newObjectReadSeeker ''bucket'' ''blob'', demo [])) =
     Some [ReadReply [0, 1, 2, 3, 4] None, SeekReply 2 None, ReadReply [5, 6, 7, 8, 9] (Some EOF)] \<and>
   map_option fst (run [CallSeek 2 0, CallRead 10]
       (newObjectReadSeeker ''bucket'' ''blob'', demo [])) =
     Some [SeekReply 2 None, ReadReply [2, 3, 4, 5, 6, 7, 8, 9] (Some EOF)]"
  by (simp add: eval_defs)

text \<open>
  C3, evaluated: on a stream at offset 5, \<open>Seek(3, 1)\<close> (relative to the current offset)
  and \<open>Seek(3, 2)\<close> (relative to the end) return \<open>(3, nil)\<close> and leave the offset at 3, as
  \<open>Seek(3, 0)\<close> does; there is no error and the offset does not stay at 5.
\<close>

theorem Seek_whence_is_ignored:
  "objectReadSeeker_Seek 3 1 ((newObjectReadSeeker ''bucket'' ''blob'')\<lparr>offset := 5\<rparr>) =
     ((3, None), (newObjectReadSeeker ''bucket'' ''blob'')\<lparr>offset := 3\<rparr>) \<and>
   objectReadSeeker_Seek 3 2 ((newObjectReadSeeker ''bucket'' ''blob'')\<lparr>offset := 5\<rparr>) =
     ((3, None), (newObjectReadSeeker ''bucket'' ''blob'')\<lparr>offset := 3\<rparr>)"
  by (simp add: objectReadSeeker_Seek_def)

section \<open>Size\<close>

text \<open>
  C7. \<open>Size\<close> changes neither the offset, nor the active-fetch flag, nor the held handle,
  nor the transport; a second \<open>Size\<close> returns the same answer and changes nothing more; and
  a \<open>Read\<close> after \<open>Size\<close> returns what it returns without it (the streams differ in the
  cached \<open>stat\<close> only).
\<close>

theorem Size_leaves_position_and_fetch_alone:
  "(case objectReadSeeker_Size (r, t) of
      (res, r1, t1) \<Rightarrow>
        offset r1 = offset r \<and> isRead r1 = isRead r \<and> reader r1 = reader r \<and> t1 = t \<and>
        objectReadSeeker_Size (r1, t1) = (res, r1, t1) \<and>
        objectReadSeeker_Read n (r1, t1) =
          map_option (\<lambda>(out, r2, t2). (out, r2\<lparr>stat := stat r1\<rparr>, t2)) (objectReadSeeker_Read n (r, t)))"
  by (auto simp: objectReadSeeker_Size_def objectReadSeeker_Read_def
      split: prod.splits sum.splits option.splits)

section \<open>Facts about paths and patterns\<close>







































lemma TempFile_loop_created:
  "TempFile_loop k dir pfx fs = (Inr f, fs') \<Longrightarrow> fname f \<in> set (paths fs')"
proof (induction k arbitrary: fs)
  case 0
  then show ?case by simp
next
  case (Suc k)
  then show ?case
    by (auto simp: Let_def OpenFile_excl_def split: prod.splits sum.splits if_splits)
qed


section \<open>Acquire and release\<close>

text \<open>
  C8. Let \<open>newTempFile\<close> succeed, and let \<open>Close\<close> of the resource succeed on whatever the
  file system has become. The resource held a file whose path \<open>newTempFile\<close> had created;
  after \<open>Close\<close> that path does not exist, the resource holds no file any more, and a
  second \<open>Close\<close> returns success and changes neither the resource nor the file system: it
  is stopped by the \<open>nil\<close> file, not by the operating system.
\<close>

theorem release_removes_acquired_path:
  assumes "newTempFile pfx fs0 = (Inr t, fs1)"
    and "tempFile_Close t fs = (None, t1, fs')"
  shows "\<exists>f. File t = Some f \<and> fname f \<in> set (paths fs1) \<and> fname f \<notin> set (paths fs') \<and>
           File t1 = None \<and> tempFile_Close t1 fs' = (None, t1, fs')"
proof -
  from assms(1) obtain f where f: "t = \<lparr>File = Some f\<rparr>"
    and tf: "TempFile (TempDir fs0) pfx fs0 = (Inr f, fs1)"
    by (auto simp: newTempFile_def split: prod.splits sum.splits)
  from tf have created: "fname f \<in> set (paths fs1)"
    by (auto simp: TempFile_def dest: TempFile_loop_created)
  from assms(2) f obtain fs2 where
    cl: "File_Close f fs = (None, fs2)" and rm: "Remove (fname f) fs2 = (None, fs')"
    and t1: "t1 = t\<lparr>File := None\<rparr>"
    by (auto simp: tempFile_Close_def split: prod.splits option.splits)
  from rm have gone: "fname f \<notin> set (paths fs')"
    by (auto simp: Remove_def split: if_splits)
  have again: "tempFile_Close t1 fs' = (None, t1, fs')"
    using t1 by (simp add: tempFile_Close_def)
  from f created gone t1 again show ?thesis by simp
qed


text \<open>C8, witness: \<open>/tmp/up000\<close> exists, so the file is created as \<open>/tmp/up001\<close>; then it is released.\<close>

theorem release_removes_acquired_path_witness:
  "newTempFile ''up'' (tmpfs [''/tmp/up000''] []) =
     (Inr \<lparr>File = Some \<lparr>fname = ''/tmp/up001'', fd = 3\<rparr>\<rparr>,
      (tmpfs [''/tmp/up000''] [])\<lparr>paths := [''/tmp/up001'', ''/tmp'', ''/tmp/up000''],
         descriptors := [3], next_fd := 4, random := [''002'']\<rparr>) \<and>
   tempFile_Close \<lparr>File = Some \<lparr>fname = ''/tmp/up001'', fd = 3\<rparr>\<rparr>
      ((tmpfs [''/tmp/up000''] [])\<lparr>paths := [''/tmp/up001'', ''/tmp'', ''/tmp/up000''],
         descriptors := [3], next_fd := 4, random := [''002'']\<rparr>) =
     (None, \<lparr>File = None\<rparr>, (tmpfs [''/tmp/up000''] [])\<lparr>next_fd := 4, random := [''002'']\<rparr>) \<and>
   ''/tmp/up001'' \<notin> set (paths ((tmpfs [''/tmp/up000''] [])\<lparr>next_fd := 4, random := [''002'']\<rparr>)) \<and>
   tempFile_Close \<lparr>File = None\<rparr> ((tmpfs [''/tmp/up000''] [])\<lparr>next_fd := 4, random := [''002'']\<rparr>) =
     (None, \<lparr>File = None\<rparr>, (tmpfs [''/tmp/up000''] [])\<lparr>next_fd := 4, random := [''002'']\<rparr>)"
proof -
  let ?fs0 = "tmpfs [''/tmp/up000''] []"
  let ?t = "\<lparr>File = Some \<lparr>fname = ''/tmp/up001'', fd = 3\<rparr>\<rparr>"
  let ?fs1 = "?fs0\<lparr>paths := [''/tmp/up001'', ''/tmp'', ''/tmp/up000''],
         descriptors := [3], next_fd := 4, random := [''002'']\<rparr>"
  let ?fs2 = "?fs0\<lparr>next_fd := 4, random := [''002'']\<rparr>"
  have h1: "newTempFile ''up'' ?fs0 = (Inr ?t, ?fs1)" by code_simp
  have h2: "tempFile_Close ?t ?fs1 = (None, \<lparr>File = None\<rparr>, ?fs2)" by code_simp
  from release_removes_acquired_path [OF h1 h2] h1 h2 show ?thesis by simp
qed


section \<open>Sweeping stale files\<close>






text \<open>
  The root as temp directory: the entries \<open>p1\<close> and \<open>p2\<close> of the root are removed, the
  entry \<open>p3\<close> of a directory below it is not.
\<close>

lemma sweep_of_the_root_directory:
  "plain_tmp \<lparr>TempDir = ''/'', paths = [''/p2'', ''/q'', ''/p1'', ''/q/p3''], locked = [],
      descriptors = [], next_fd = 3, random = []\<rparr> \<and>
   stale_files ''p'' \<lparr>TempDir = ''/'', paths = [''/p2'', ''/q'', ''/p1'', ''/q/p3''], locked = [],
      descriptors = [], next_fd = 3, random = []\<rparr> = [''/p1'', ''/p2''] \<and>
   cleanupStaleTempfiles ''p'' \<lparr>TempDir = ''/'', paths = [''/p2'', ''/q'', ''/p1'', ''/q/p3''], locked = [],
      descriptors = [], next_fd = 3, random = []\<rparr> =
     (None, \<lparr>TempDir = ''/'', paths = [''/q'', ''/q/p3''], locked = [],
      descriptors = [], next_fd = 3, random = []\<rparr>)"
  by code_simp


text \<open>
  Why the temp directory must be free of \<open>*\<close>, \<open>?\<close> and \<open>[\<close>: \<open>Glob\<close> expands them in
  the directory as well. With \<open>/t?p\<close> as temp directory, a directory that has no entry,
  the sweep removes the entry \<open>multi1\<close> of \<open>/tmp\<close>.
\<close>

lemma sweep_glob_pattern_in_TempDir:
  "cleanupStaleTempfiles ''multi'' ((tmpfs [''/tmp/multi1''] [])\<lparr>TempDir := ''/t?p''\<rparr>) =
     (None, (tmpfs [] [])\<lparr>TempDir := ''/t?p''\<rparr>) \<and>
   stale_files ''multi'' ((tmpfs [''/tmp/multi1''] [])\<lparr>TempDir := ''/t?p''\<rparr>) = []"
  by code_simp

end
